theory Spec2Isabelle
  imports Main "HOL-Library.Multiset" "HOL-Library.Char_ord" "HOL-Library.List_Lexorder"
begin

section \<open>The focus timer (component FocusMode)\<close>

text \<open>
  The component keeps three pieces of React state,
  \<^verbatim>\<open>timeLeft\<close> (initially \<^verbatim>\<open>25 * 60\<close>), \<^verbatim>\<open>isActive\<close> (initially false) and
  \<^verbatim>\<open>sessionType\<close> (\<^verbatim>\<open>'work' | 'break'\<close>, initially \<^verbatim>\<open>'work'\<close>).
  Its effect owns one \<^verbatim>\<open>setInterval\<close> handle: the field \<open>interval\<close> is \<open>Some c\<close> while an
  interval is live, \<open>c\<close> being the value of \<^verbatim>\<open>timeLeft\<close> captured by the closure
  \<^verbatim>\<open>() => setTimeLeft(timeLeft - 1)\<close>, and \<open>None\<close> after \<^verbatim>\<open>clearInterval\<close>.
\<close>

datatype session_type = Work | Break

record focus_state =
  timeLeft :: int
  isActive :: bool
  sessionType :: session_type
  interval :: "int option"

type_synonym completion = "int \<times> session_type"

subsection \<open>The session recorder (handleFocusSessionComplete)\<close>

text \<open>
  \<^verbatim>\<open>
  const handleFocusSessionComplete = async (duration: number, type: string) => {
    try {
      await fetch('/api/focus', { method: 'POST', ..., body: JSON.stringify({ duration, type }) });
    } catch (error) {
      console.error("Focus session save error:", error);
    }
  };
  \<close>
  A statement completes normally or abruptly (an exception is in flight). The promise
  returned by \<^verbatim>\<open>fetch\<close> is an input of the model. An \<^verbatim>\<open>async\<close> function returns its promise
  to the caller without throwing; the promise is rejected when the body completes abruptly.
\<close>

datatype call_result = Returned | Thrown

datatype promise_state = Fulfilled | Rejected

datatype stmt_result = Normal | Abrupt

record async_run =
  sync :: call_result
  promise :: promise_state
  console :: "string list"
  posted :: "completion list"

type_synonym stmt_run = "stmt_result \<times> string list \<times> completion list"

definition await_fetch :: "promise_state \<Rightarrow> int \<Rightarrow> session_type \<Rightarrow> stmt_run" where
  "await_fetch response duration type =
     (case response of Fulfilled \<Rightarrow> (Normal, [], [(duration, type)])
                     | Rejected \<Rightarrow> (Abrupt, [], [(duration, type)]))"

definition try_catch :: "stmt_run \<Rightarrow> stmt_run \<Rightarrow> stmt_run" where
  "try_catch body handler =
     (case body of
        (Normal, logged, sent) \<Rightarrow> (Normal, logged, sent)
      | (Abrupt, logged, sent) \<Rightarrow>
          (case handler of (r, logged', sent') \<Rightarrow> (r, logged @ logged', sent @ sent')))"

definition async_call :: "stmt_run \<Rightarrow> async_run" where
  "async_call body =
     (case body of (r, logged, sent) \<Rightarrow>
        \<lparr>sync = Returned,
         promise = (case r of Normal \<Rightarrow> Fulfilled | Abrupt \<Rightarrow> Rejected),
         console = logged,
         posted = sent\<rparr>)"

definition handleFocusSessionComplete :: "promise_state \<Rightarrow> int \<Rightarrow> session_type \<Rightarrow> async_run" where
  "handleFocusSessionComplete response duration type =
     async_call (try_catch (await_fetch response duration type)
                           (Normal, [''Focus session save error:''], []))"

text \<open>
  The prop \<^verbatim>\<open>onSessionComplete={handleFocusSessionComplete}\<close> as the timer sees it: the
  synchronous result of the call. \<open>net\<close> gives the fate of the request for each payload.
\<close>

definition onSessionComplete ::
  "(int \<Rightarrow> session_type \<Rightarrow> promise_state) \<Rightarrow> int \<Rightarrow> session_type \<Rightarrow> call_result" where
  "onSessionComplete net duration type = sync (handleFocusSessionComplete (net duration type) duration type)"

subsection \<open>The effect and the commit of a render\<close>

text \<open>\<^verbatim>\<open>const totalTime = sessionType === 'work' ? 25 * 60 : 5 * 60;\<close>\<close>

definition totalTime :: "session_type \<Rightarrow> int" where
  "totalTime t = (if t = Work then 25 * 60 else 5 * 60)"

text \<open>
  One run of the effect body on the rendered state. The clean-up of the previous run
  (\<^verbatim>\<open>clearInterval(interval)\<close>) has happened first, so every branch starts from no live
  interval. The callback is called synchronously in the middle of the zero branch: if it
  throws, the exception leaves the effect and the result is \<open>None\<close>.
  \<^verbatim>\<open>
    let interval: any = null;
    if (isActive && timeLeft > 0) {
      interval = setInterval(() => { setTimeLeft(timeLeft - 1); }, 1000);
    } else if (timeLeft === 0) {
      setIsActive(false);
      clearInterval(interval);
      onSessionComplete(sessionType === 'work' ? 25 : 5, sessionType);
      if (sessionType === 'work') { alert(..); setSessionType('break'); setTimeLeft(5 * 60); }
      else { alert(..); setSessionType('work'); setTimeLeft(25 * 60); }
    }
    return () => clearInterval(interval);
  \<close>
\<close>

definition useEffect ::
  "(int \<Rightarrow> session_type \<Rightarrow> call_result) \<Rightarrow> focus_state \<Rightarrow> (focus_state \<times> completion list) option" where
  "useEffect cb s =
     (if isActive s \<and> timeLeft s > 0 then
        Some (s\<lparr>interval := Some (timeLeft s)\<rparr>, [])
      else if timeLeft s = 0 then
        (case cb (if sessionType s = Work then 25 else 5) (sessionType s) of
           Thrown \<Rightarrow> None
         | Returned \<Rightarrow>
             (if sessionType s = Work then
                Some (s\<lparr>isActive := False, sessionType := Break, timeLeft := 5 * 60, interval := None\<rparr>,
                      [(if sessionType s = Work then 25 else 5, sessionType s)])
              else
                Some (s\<lparr>isActive := False, sessionType := Work, timeLeft := 25 * 60, interval := None\<rparr>,
                      [(if sessionType s = Work then 25 else 5, sessionType s)])))
      else Some (s\<lparr>interval := None\<rparr>, []))"

text \<open>
  The dependency list is \<^verbatim>\<open>[isActive, timeLeft, sessionType, onSessionComplete]\<close>: when the
  effect has changed one of the three state variables the component renders again and the
  effect runs again, until a run changes nothing. The calls of the callback are collected
  in order. An event is handled to completion (state updates, render, clean-up, effect)
  before the next one is delivered.
\<close>

function commit ::
  "(int \<Rightarrow> session_type \<Rightarrow> call_result) \<Rightarrow> focus_state \<Rightarrow> (focus_state \<times> completion list) option" where
  "commit cb s =
     (case useEffect cb s of
        None \<Rightarrow> None
      | Some (s', calls) \<Rightarrow>
          if timeLeft s' = timeLeft s \<and> isActive s' = isActive s \<and> sessionType s' = sessionType s
          then Some (s', calls)
          else (case commit cb s' of
                  None \<Rightarrow> None
                | Some (s'', calls') \<Rightarrow> Some (s'', calls @ calls')))"
  by pat_completeness auto
termination
  by (relation "measure (\<lambda>(cb, s). if timeLeft s = 0 then 1 else 0)")
     (auto simp: useEffect_def split: if_splits call_result.splits)

subsection \<open>The handlers\<close>

text \<open>
  Mounting: \<^verbatim>\<open>useState(25 * 60)\<close>, \<^verbatim>\<open>useState(false)\<close>, \<^verbatim>\<open>useState('work')\<close>, then the
  first run of the effect.
\<close>

definition initial :: focus_state where
  "initial = \<lparr>timeLeft = 25 * 60, isActive = False, sessionType = Work, interval = None\<rparr>"

text \<open>
  The two mode buttons:
  \<^verbatim>\<open>onClick={() => { setSessionType('work'); setTimeLeft(25 * 60); setIsActive(false); }}\<close> and
  \<^verbatim>\<open>onClick={() => { setSessionType('break'); setTimeLeft(5 * 60); setIsActive(false); }}\<close>.
\<close>

definition selectMode ::
  "(int \<Rightarrow> session_type \<Rightarrow> call_result) \<Rightarrow> session_type \<Rightarrow> focus_state \<Rightarrow> (focus_state \<times> completion list) option" where
  "selectMode cb m s =
     (case m of
        Work \<Rightarrow> commit cb (s\<lparr>sessionType := Work, timeLeft := 25 * 60, isActive := False\<rparr>)
      | Break \<Rightarrow> commit cb (s\<lparr>sessionType := Break, timeLeft := 5 * 60, isActive := False\<rparr>))"

text \<open>The one start/pause button: \<^verbatim>\<open>onClick={() => setIsActive(!isActive)}\<close>.\<close>

definition toggleActive ::
  "(int \<Rightarrow> session_type \<Rightarrow> call_result) \<Rightarrow> focus_state \<Rightarrow> (focus_state \<times> completion list) option" where
  "toggleActive cb s = commit cb (s\<lparr>isActive := \<not> isActive s\<rparr>)"

text \<open>
  The reset button:
  \<^verbatim>\<open>onClick={() => { setTimeLeft(sessionType === 'work' ? 25 * 60 : 5 * 60); setIsActive(false); }}\<close>.
\<close>

definition reset ::
  "(int \<Rightarrow> session_type \<Rightarrow> call_result) \<Rightarrow> focus_state \<Rightarrow> (focus_state \<times> completion list) option" where
  "reset cb s =
     commit cb (s\<lparr>timeLeft := (if sessionType s = Work then 25 * 60 else 5 * 60), isActive := False\<rparr>)"

text \<open>
  The interval callback \<^verbatim>\<open>() => { setTimeLeft(timeLeft - 1); }\<close>. It exists only while an
  interval is live; \<open>tickCallback\<close> is the state it writes, before the next render.
\<close>

definition tickCallback :: "focus_state \<Rightarrow> focus_state option" where
  "tickCallback s = (case interval s of None \<Rightarrow> None | Some c \<Rightarrow> Some (s\<lparr>timeLeft := c - 1\<rparr>))"

definition tick ::
  "(int \<Rightarrow> session_type \<Rightarrow> call_result) \<Rightarrow> focus_state \<Rightarrow> (focus_state \<times> completion list) option" where
  "tick cb s = (case tickCallback s of None \<Rightarrow> Some (s, []) | Some s' \<Rightarrow> commit cb s')"

text \<open>
  A render of the parent passes a fresh \<^verbatim>\<open>onSessionComplete\<close> (the handler is not
  memoised), so the effect runs again on an unchanged state.
\<close>

definition rerender ::
  "(int \<Rightarrow> session_type \<Rightarrow> call_result) \<Rightarrow> focus_state \<Rightarrow> (focus_state \<times> completion list) option" where
  "rerender cb s = commit cb s"

subsection \<open>Runs\<close>

datatype action = Tick | StartPause | Reset | SelectMode session_type | Rerender

fun step ::
  "(int \<Rightarrow> session_type \<Rightarrow> call_result) \<Rightarrow> action \<Rightarrow> focus_state \<Rightarrow> (focus_state \<times> completion list) option" where
  "step cb Tick s = tick cb s"
| "step cb StartPause s = toggleActive cb s"
| "step cb Reset s = reset cb s"
| "step cb (SelectMode m) s = selectMode cb m s"
| "step cb Rerender s = rerender cb s"

fun run ::
  "(int \<Rightarrow> session_type \<Rightarrow> call_result) \<Rightarrow> focus_state \<Rightarrow> action list \<Rightarrow> (focus_state \<times> completion list) option" where
  "run cb s [] = Some (s, [])"
| "run cb s (a # as) =
     (case step cb a s of
        None \<Rightarrow> None
      | Some (s', calls) \<Rightarrow>
          (case run cb s' as of
             None \<Rightarrow> None
           | Some (s'', calls') \<Rightarrow> Some (s'', calls @ calls')))"

text \<open>
  The states in which the component rests between events: the countdown is positive and
  within the mode's duration, and an interval is live exactly while the timer is active,
  its closure holding the current \<^verbatim>\<open>timeLeft\<close>.
\<close>

definition settled :: "focus_state \<Rightarrow> bool" where
  "settled s \<longleftrightarrow>
     0 < timeLeft s \<and> timeLeft s \<le> totalTime (sessionType s) \<and>
     interval s = (if isActive s then Some (timeLeft s) else None)"

text \<open>
  The completions a run owes by the specification's words: one for each tick that takes
  \<^verbatim>\<open>timeLeft\<close> from 1 to 0 while the timer is running, carrying the nominal minutes of the
  mode that ended.
\<close>

fun zero_transitions ::
  "(int \<Rightarrow> session_type \<Rightarrow> call_result) \<Rightarrow> focus_state \<Rightarrow> action list \<Rightarrow> completion list" where
  "zero_transitions cb s [] = []"
| "zero_transitions cb s (a # as) =
     (if a = Tick \<and> isActive s \<and> timeLeft s = 1
      then [(totalTime (sessionType s) div 60, sessionType s)] else [])
     @ (case step cb a s of None \<Rightarrow> [] | Some (s', calls) \<Rightarrow> zero_transitions cb s' as)"

section \<open>The CRUD back end (server.ts)\<close>

text \<open>
  The rows of the two tables the claims are about. A nullable TEXT column is a
  \<open>string option\<close>, \<open>None\<close> being SQL NULL; \<^verbatim>\<open>id\<close> is the INTEGER PRIMARY KEY;
  \<^verbatim>\<open>created_at\<close> holds the text of \<^verbatim>\<open>CURRENT_TIMESTAMP\<close> (\<^verbatim>\<open>YYYY-MM-DD HH:MM:SS\<close>), which
  SQLite compares bytewise.
\<close>

record task =
  task_id :: int
  title :: string
  description :: "string option"
  priority :: "string option"
  status :: "string option"
  due_date :: "string option"
  created_at :: string

record lecture =
  lecture_id :: int
  subject :: string
  topic :: "string option"
  attendance_status :: "string option"
  date :: "string option"
  completed :: int

text \<open>
  A field of the parsed JSON body as the handlers read it by destructuring: missing
  (\<^verbatim>\<open>undefined\<close>), \<^verbatim>\<open>null\<close>, or a string.
\<close>

datatype field = Absent | Null | Text string

record task_patch =
  patch_status :: field
  patch_priority :: field

record lecture_patch =
  patch_attendance_status :: field

datatype response = Success | Internal_Server_Error

text \<open>JavaScript truthiness, as \<^verbatim>\<open>if (status)\<close> tests it: the empty string is falsy.\<close>

definition truthy :: "field \<Rightarrow> bool" where
  "truthy v = (case v of Absent \<Rightarrow> False | Null \<Rightarrow> False | Text x \<Rightarrow> x \<noteq> [])"

text \<open>The value a bound parameter stores in a TEXT column.\<close>

definition bound :: "field \<Rightarrow> string option" where
  "bound v = (case v of Absent \<Rightarrow> None | Null \<Rightarrow> None | Text x \<Rightarrow> Some x)"

text \<open>
  \<^verbatim>\<open>UPDATE tasks SET status = ? WHERE id = ?\<close>, \<^verbatim>\<open>UPDATE tasks SET priority = ? WHERE id = ?\<close>
  and \<^verbatim>\<open>UPDATE lectures SET attendance_status = ? WHERE id = ?\<close>.
\<close>

definition update_status :: "string option \<Rightarrow> int \<Rightarrow> task list \<Rightarrow> task list" where
  "update_status v i rows = map (\<lambda>r. if task_id r = i then r\<lparr>status := v\<rparr> else r) rows"

definition update_priority :: "string option \<Rightarrow> int \<Rightarrow> task list \<Rightarrow> task list" where
  "update_priority v i rows = map (\<lambda>r. if task_id r = i then r\<lparr>priority := v\<rparr> else r) rows"

definition update_attendance_status :: "string option \<Rightarrow> int \<Rightarrow> lecture list \<Rightarrow> lecture list" where
  "update_attendance_status v i rows =
     map (\<lambda>r. if lecture_id r = i then r\<lparr>attendance_status := v\<rparr> else r) rows"

text \<open>
  \<^verbatim>\<open>
  app.patch("/api/tasks/:id", (req, res) => {
    const { status, priority } = req.body;
    if (status) db.prepare("UPDATE tasks SET status = ? WHERE id = ?").run(status, req.params.id);
    if (priority) db.prepare("UPDATE tasks SET priority = ? WHERE id = ?").run(priority, req.params.id);
    res.json({ success: true });
  });
  \<close>
\<close>

definition patch_task :: "task_patch \<Rightarrow> int \<Rightarrow> task list \<Rightarrow> task list \<times> response" where
  "patch_task body i rows =
     (let rows1 = (if truthy (patch_status body) then update_status (bound (patch_status body)) i rows else rows);
          rows2 = (if truthy (patch_priority body) then update_priority (bound (patch_priority body)) i rows1 else rows1)
      in (rows2, Success))"

text \<open>
  \<^verbatim>\<open>
  app.patch("/api/lectures/:id", (req, res) => {
    const { attendance_status } = req.body;
    db.prepare("UPDATE lectures SET attendance_status = ? WHERE id = ?").run(attendance_status, req.params.id);
    res.json({ success: true });
  });
  \<close>
  The statement runs whatever the body holds. What \<^verbatim>\<open>run\<close> does with an \<^verbatim>\<open>undefined\<close>
  parameter is decided by the database driver, which is not part of the repository: it is
  a parameter here. Either the driver binds NULL, or it throws and the request ends in the
  framework's error response without touching the table.
\<close>

datatype undefined_parameter = Binds_Null | Throws_TypeError

definition patch_lecture ::
  "undefined_parameter \<Rightarrow> lecture_patch \<Rightarrow> int \<Rightarrow> lecture list \<Rightarrow> lecture list \<times> response" where
  "patch_lecture driver body i rows =
     (if patch_attendance_status body = Absent \<and> driver = Throws_TypeError
      then (rows, Internal_Server_Error)
      else (update_attendance_status (bound (patch_attendance_status body)) i rows, Success))"

text \<open>
  \<^verbatim>\<open>
  app.get("/api/tasks", (req, res) => {
    const tasks = db.prepare("SELECT * FROM tasks ORDER BY created_at DESC").all();
    res.json(tasks);
  });
  \<close>
  The query returns every row, ordered by the key from the largest down. The list of
  rows is the table in \<^verbatim>\<open>id\<close> order. SQL leaves the order of rows with equal keys open;
  SQLite returns them in the order of the table, and so does the model: the stable
  ascending sort of the reversed table, reversed.
\<close>

definition get_tasks :: "task list \<Rightarrow> task list" where
  "get_tasks rows = rev (sort_key created_at (rev rows))"

section \<open>Properties of the focus timer\<close>

subsection \<open>The recorder, the commit and the single steps\<close>

lemma handler_never_throws: "onSessionComplete net d t = Returned"
  by (simp add: onSessionComplete_def handleFocusSessionComplete_def async_call_def try_catch_def
      await_fetch_def split: promise_state.splits)

lemma commit_positive:
  "0 < timeLeft s \<Longrightarrow>
   commit cb s = Some (s\<lparr>interval := (if isActive s then Some (timeLeft s) else None)\<rparr>, [])"
  by (simp add: useEffect_def)

lemma commit_zero:
  assumes z: "timeLeft s = 0"
    and r: "cb (totalTime (sessionType s) div 60) (sessionType s) = Returned"
  shows "commit cb s =
     Some (\<lparr>timeLeft = (if sessionType s = Work then 300 else 1500), isActive = False,
            sessionType = (if sessionType s = Work then Break else Work), interval = None\<rparr>,
           [(totalTime (sessionType s) div 60, sessionType s)])"
proof (cases "sessionType s")
  case Work
  let ?s' = "s\<lparr>isActive := False, sessionType := Break, timeLeft := 300, interval := None\<rparr>"
  from r Work have r': "cb 25 Work = Returned" by (simp add: totalTime_def)
  have e: "useEffect cb s = Some (?s', [(25, Work)])"
    using z Work r' by (simp add: useEffect_def)
  have c: "commit cb ?s' = Some (?s', [])"
    by (subst commit_positive) simp_all
  have "commit cb s = Some (?s', [(25, Work)])"
    by (subst commit.simps) (simp add: e c z del: commit.simps)
  then show ?thesis using Work by (simp add: totalTime_def)
next
  case Break
  let ?s' = "s\<lparr>isActive := False, sessionType := Work, timeLeft := 1500, interval := None\<rparr>"
  from r Break have r': "cb 5 Break = Returned" by (simp add: totalTime_def)
  have e: "useEffect cb s = Some (?s', [(5, Break)])"
    using z Break r' by (simp add: useEffect_def)
  have c: "commit cb ?s' = Some (?s', [])"
    by (subst commit_positive) simp_all
  have "commit cb s = Some (?s', [(5, Break)])"
    by (subst commit.simps) (simp add: e c z del: commit.simps)
  then show ?thesis using Break by (simp add: totalTime_def)
qed

lemma commit_thrown:
  "timeLeft s = 0 \<Longrightarrow> cb (totalTime (sessionType s) div 60) (sessionType s) = Thrown \<Longrightarrow>
   commit cb s = None"
  by (subst commit.simps, cases "sessionType s")
     (simp_all add: useEffect_def totalTime_def del: commit.simps)

declare commit.simps [simp del]

lemma settled_initial: "settled initial"
  by (simp add: settled_def initial_def totalTime_def)

lemma selectMode_any:
  "selectMode cb m s =
     Some (\<lparr>timeLeft = totalTime m, isActive = False, sessionType = m, interval = None\<rparr>, [])"
  by (cases m) (simp_all add: selectMode_def commit_positive totalTime_def)

lemma reset_any:
  "reset cb s =
     Some (\<lparr>timeLeft = totalTime (sessionType s), isActive = False,
            sessionType = sessionType s, interval = None\<rparr>, [])"
  by (simp add: reset_def commit_positive totalTime_def)

lemma toggleActive_settled:
  "settled s \<Longrightarrow>
   toggleActive cb s =
     Some (s\<lparr>isActive := \<not> isActive s,
             interval := (if isActive s then None else Some (timeLeft s))\<rparr>, [])"
  by (simp add: toggleActive_def settled_def commit_positive)

lemma rerender_settled: "settled s \<Longrightarrow> rerender cb s = Some (s, [])"
  by (simp add: rerender_def settled_def commit_positive)

lemma tick_idle: "settled s \<Longrightarrow> \<not> isActive s \<Longrightarrow> tick cb s = Some (s, [])"
  by (simp add: tick_def tickCallback_def settled_def)

lemma tick_running:
  "settled s \<Longrightarrow> isActive s \<Longrightarrow> 1 < timeLeft s \<Longrightarrow>
   tick cb s = Some (s\<lparr>timeLeft := timeLeft s - 1, interval := Some (timeLeft s - 1)\<rparr>, [])"
  by (simp add: tick_def tickCallback_def settled_def commit_positive)

lemma tick_last:
  "settled s \<Longrightarrow> isActive s \<Longrightarrow> timeLeft s = 1 \<Longrightarrow>
   tick (onSessionComplete net) s =
     Some (\<lparr>timeLeft = (if sessionType s = Work then 300 else 1500), isActive = False,
            sessionType = (if sessionType s = Work then Break else Work), interval = None\<rparr>,
           [(totalTime (sessionType s) div 60, sessionType s)])"
  by (simp add: tick_def tickCallback_def settled_def commit_zero handler_never_throws)

lemma step_settled:
  assumes "settled s"
  shows "\<exists>s'. step (onSessionComplete net) a s =
            Some (s', if a = Tick \<and> isActive s \<and> timeLeft s = 1
                      then [(totalTime (sessionType s) div 60, sessionType s)] else [])
          \<and> settled s'"
proof (cases a)
  case Tick
  from assms have "0 < timeLeft s" by (simp add: settled_def)
  then consider "\<not> isActive s" | "isActive s" "1 < timeLeft s" | "isActive s" "timeLeft s = 1"
    by fastforce
  then show ?thesis
  proof cases
    case 1
    then show ?thesis using assms Tick by (simp add: tick_idle)
  next
    case 2
    then show ?thesis using assms Tick by (simp add: tick_running) (simp add: settled_def)
  next
    case 3
    then show ?thesis using assms Tick by (simp add: tick_last) (simp add: settled_def totalTime_def)
  qed
next
  case StartPause
  then show ?thesis using assms by (simp add: toggleActive_settled) (simp add: settled_def)
next
  case Reset
  then show ?thesis by (simp add: reset_any) (simp add: settled_def totalTime_def)
next
  case (SelectMode m)
  then show ?thesis by (simp add: selectMode_any) (simp add: settled_def totalTime_def)
next
  case Rerender
  then show ?thesis using assms by (simp add: rerender_settled)
qed

lemma run_settled:
  "settled s \<Longrightarrow>
   \<exists>s'. run (onSessionComplete net) s as =
           Some (s', zero_transitions (onSessionComplete net) s as) \<and> settled s'"
proof (induction as arbitrary: s)
  case Nil
  then show ?case by simp
next
  case (Cons a as)
  from step_settled [OF Cons.prems, of net a] obtain s1 where
    s1: "step (onSessionComplete net) a s =
            Some (s1, if a = Tick \<and> isActive s \<and> timeLeft s = 1
                      then [(totalTime (sessionType s) div 60, sessionType s)] else [])"
    and "settled s1" by blast
  from Cons.IH [OF \<open>settled s1\<close>] obtain s2 where
    s2: "run (onSessionComplete net) s1 as = Some (s2, zero_transitions (onSessionComplete net) s1 as)"
    and "settled s2" by blast
  show ?case using s1 s2 \<open>settled s2\<close> by simp
qed

subsection \<open>Sequences of ticks\<close>

lemma run_append:
  "run cb s (as @ bs) =
     (case run cb s as of
        None \<Rightarrow> None
      | Some (s', calls) \<Rightarrow>
          (case run cb s' bs of
             None \<Rightarrow> None
           | Some (s'', calls') \<Rightarrow> Some (s'', calls @ calls')))"
  by (induction as arbitrary: s) (auto split: option.splits)

lemma ticks_idle:
  "settled s \<Longrightarrow> \<not> isActive s \<Longrightarrow> run cb s (replicate n Tick) = Some (s, [])"
  by (induction n) (simp_all add: tick_idle)

lemma ticks_running:
  "settled s \<Longrightarrow> isActive s \<Longrightarrow> int n < timeLeft s \<Longrightarrow>
   run cb s (replicate n Tick) =
     Some (s\<lparr>timeLeft := timeLeft s - int n, interval := Some (timeLeft s - int n)\<rparr>, [])"
proof (induction n arbitrary: s)
  case 0
  then show ?case by (simp add: settled_def)
next
  case (Suc n)
  let ?s1 = "s\<lparr>timeLeft := timeLeft s - 1, interval := Some (timeLeft s - 1)\<rparr>"
  from Suc.prems have t: "tick cb s = Some (?s1, [])" by (simp add: tick_running)
  from Suc.prems have "settled ?s1" "isActive ?s1" "int n < timeLeft ?s1"
    by (simp_all add: settled_def)
  from Suc.IH [OF this] t show ?case by (simp add: algebra_simps)
qed

lemma ticks_complete:
  assumes "settled s" and "isActive s" and "timeLeft s \<le> int n"
  shows "run (onSessionComplete net) s (replicate n Tick) =
     Some (\<lparr>timeLeft = (if sessionType s = Work then 300 else 1500), isActive = False,
            sessionType = (if sessionType s = Work then Break else Work), interval = None\<rparr>,
           [(totalTime (sessionType s) div 60, sessionType s)])"
proof -
  let ?cb = "onSessionComplete net"
  define k where "k = nat (timeLeft s) - 1"
  define m where "m = n - Suc k"
  from assms have pos: "0 < timeLeft s" by (simp add: settled_def)
  with assms have n: "n = k + Suc m" and kl: "int k < timeLeft s" and k1: "timeLeft s - int k = 1"
    by (simp_all add: k_def m_def)
  let ?s1 = "s\<lparr>timeLeft := timeLeft s - int k, interval := Some (timeLeft s - int k)\<rparr>"
  let ?s2 = "\<lparr>timeLeft = (if sessionType s = Work then 300 else 1500), isActive = False,
            sessionType = (if sessionType s = Work then Break else Work), interval = None\<rparr>"
  have a: "run ?cb s (replicate k Tick) = Some (?s1, [])"
    using assms kl by (simp add: ticks_running)
  have s1: "settled ?s1" "isActive ?s1" "timeLeft ?s1 = 1"
    using assms k1 by (simp_all add: settled_def)
  have b: "tick ?cb ?s1 = Some (?s2, [(totalTime (sessionType s) div 60, sessionType s)])"
    using tick_last [OF s1, of net] by simp
  have s2: "settled ?s2" "\<not> isActive ?s2" by (simp_all add: settled_def totalTime_def)
  have c: "run ?cb ?s2 (replicate m Tick) = Some (?s2, [])"
    using s2 by (rule ticks_idle)
  have "run ?cb s (replicate k Tick @ (Tick # replicate m Tick)) =
          Some (?s2, [(totalTime (sessionType s) div 60, sessionType s)])"
    by (simp only: run_append a option.case prod.case run.simps step.simps b c append.simps)
  moreover have "replicate n Tick = replicate k Tick @ (Tick # replicate m Tick)"
    by (subst n) (simp only: replicate_add replicate.simps)
  ultimately show ?thesis by simp
qed

lemma ticks_monotone:
  "settled s \<Longrightarrow>
   \<exists>s' calls. run (onSessionComplete net) s (replicate k Tick) = Some (s', calls) \<and> settled s' \<and>
     (isActive s' \<longrightarrow> isActive s \<and> timeLeft s' \<le> timeLeft s)"
proof (induction k arbitrary: s)
  case 0
  then show ?case by simp
next
  case (Suc k)
  from Suc.prems have "0 < timeLeft s" by (simp add: settled_def)
  then consider "\<not> isActive s" | "isActive s" "1 < timeLeft s" | "isActive s" "timeLeft s = 1"
    by fastforce
  then obtain s1 c1 where t: "tick (onSessionComplete net) s = Some (s1, c1)" and "settled s1"
    and m: "isActive s1 \<longrightarrow> isActive s \<and> timeLeft s1 \<le> timeLeft s"
  proof cases
    case 1
    with Suc.prems that [of s "[]"] show ?thesis by (simp add: tick_idle)
  next
    case 2
    with Suc.prems that [of "s\<lparr>timeLeft := timeLeft s - 1, interval := Some (timeLeft s - 1)\<rparr>" "[]"]
    show ?thesis by (simp add: tick_running settled_def)
  next
    case 3
    with Suc.prems tick_last [of s net] that show ?thesis by (simp add: settled_def totalTime_def)
  qed
  from Suc.IH [OF \<open>settled s1\<close>] obtain s' calls where
    r: "run (onSessionComplete net) s1 (replicate k Tick) = Some (s', calls)" and "settled s'"
    and m': "isActive s' \<longrightarrow> isActive s1 \<and> timeLeft s' \<le> timeLeft s1" by blast
  from t r have "run (onSessionComplete net) s (replicate (Suc k) Tick) = Some (s', c1 @ calls)"
    by simp
  with \<open>settled s'\<close> m m' show ?case by fastforce
qed

subsection \<open>The recorder never stops the timer\<close>

lemma commit_total: "commit (onSessionComplete net) s \<noteq> None"
proof -
  consider "0 < timeLeft s" | "timeLeft s = 0" | "timeLeft s < 0" by linarith
  then show ?thesis
  proof cases
    case 1
    then show ?thesis by (simp add: commit_positive)
  next
    case 2
    then show ?thesis by (simp add: commit_zero handler_never_throws)
  next
    case 3
    then show ?thesis by (subst commit.simps) (simp add: useEffect_def)
  qed
qed

lemma step_total: "step (onSessionComplete net) a s \<noteq> None"
  using commit_total [of net]
  by (cases a)
     (auto simp: tick_def toggleActive_def reset_def rerender_def selectMode_any
        split: option.splits)

lemma throwing_callback_escapes_effect:
  "tick (\<lambda>d t. Thrown) \<lparr>timeLeft = 1, isActive = True, sessionType = Work, interval = Some 1\<rparr> = None"
  by (simp add: tick_def tickCallback_def commit_thrown)

subsection \<open>The states the timer reaches\<close>

lemma reachable_settled:
  "run (onSessionComplete net) initial as = Some (s, calls) \<Longrightarrow> settled s"
  using run_settled [OF settled_initial, of net as] by auto

section \<open>The claims about the focus timer\<close>

text \<open>
  Claim C1. In every run of the timer from its initial state the completion callback is
  called exactly once for each tick that takes \<^verbatim>\<open>timeLeft\<close> from 1 to 0 while the timer is
  running, and at no other moment: the calls of the run are exactly its
  \<open>zero_transitions\<close>. The countdown never rests at 0 (the effect loads the next mode at
  once), a render of an unchanged state calls nothing, a tick calls the callback exactly
  when it is such a transition, and after it further ticks and renders call nothing.
\<close>

theorem completion_once_per_zero_transition:
  "\<exists>s. run (onSessionComplete net) initial as
           = Some (s, zero_transitions (onSessionComplete net) initial as)
      \<and> timeLeft s \<noteq> 0
      \<and> rerender (onSessionComplete net) s = Some (s, [])
      \<and> (isActive s \<and> timeLeft s = 1 \<longrightarrow>
           (\<exists>s'. tick (onSessionComplete net) s
                    = Some (s', [(totalTime (sessionType s) div 60, sessionType s)])
                \<and> timeLeft s' \<noteq> 0
                \<and> tick (onSessionComplete net) s' = Some (s', [])
                \<and> rerender (onSessionComplete net) s' = Some (s', [])))
      \<and> (\<not> (isActive s \<and> timeLeft s = 1) \<longrightarrow>
           (\<exists>s'. tick (onSessionComplete net) s = Some (s', [])))"
proof -
  let ?cb = "onSessionComplete net"
  from run_settled [OF settled_initial, of net as] obtain s where
    r: "run ?cb initial as = Some (s, zero_transitions ?cb initial as)" and s: "settled s"
    by blast
  from s have nz: "timeLeft s \<noteq> 0" by (simp add: settled_def)
  from s have rr: "rerender ?cb s = Some (s, [])" by (rule rerender_settled)
  have last: "\<exists>s'. tick ?cb s = Some (s', [(totalTime (sessionType s) div 60, sessionType s)])
                \<and> timeLeft s' \<noteq> 0 \<and> tick ?cb s' = Some (s', []) \<and> rerender ?cb s' = Some (s', [])"
    if a: "isActive s \<and> timeLeft s = 1"
  proof -
    let ?s' = "\<lparr>timeLeft = (if sessionType s = Work then 300 else 1500), isActive = False,
            sessionType = (if sessionType s = Work then Break else Work), interval = None\<rparr>"
    have s': "settled ?s'" "\<not> isActive ?s'" by (simp_all add: settled_def totalTime_def)
    have "tick ?cb s = Some (?s', [(totalTime (sessionType s) div 60, sessionType s)])"
      using s a by (simp add: tick_last)
    moreover have "timeLeft ?s' \<noteq> 0" by simp
    moreover have "tick ?cb ?s' = Some (?s', [])" using s' by (rule tick_idle)
    moreover have "rerender ?cb ?s' = Some (?s', [])" using s'(1) by (rule rerender_settled)
    ultimately show ?thesis by blast
  qed
  have other: "\<exists>s'. tick ?cb s = Some (s', [])" if a: "\<not> (isActive s \<and> timeLeft s = 1)"
  proof (cases "isActive s")
    case True
    with a s have "1 < timeLeft s" by (simp add: settled_def)
    with s True show ?thesis by (simp add: tick_running)
  next
    case False
    with s show ?thesis by (simp add: tick_idle)
  qed
  from r nz rr last other show ?thesis by blast
qed

theorem completion_once_per_zero_transition_witness:
  "run (onSessionComplete (\<lambda>d t. Fulfilled)) initial (StartPause # replicate 1499 Tick)
     = Some (\<lparr>timeLeft = 1, isActive = True, sessionType = Work, interval = Some 1\<rparr>, [])
   \<and> zero_transitions (onSessionComplete (\<lambda>d t. Fulfilled)) initial (StartPause # replicate 1499 Tick) = []
   \<and> tick (onSessionComplete (\<lambda>d t. Fulfilled))
        \<lparr>timeLeft = 1, isActive = True, sessionType = Work, interval = Some 1\<rparr>
      = Some (\<lparr>timeLeft = 300, isActive = False, sessionType = Break, interval = None\<rparr>, [(25, Work)])
   \<and> tick (onSessionComplete (\<lambda>d t. Fulfilled))
        \<lparr>timeLeft = 300, isActive = False, sessionType = Break, interval = None\<rparr>
      = Some (\<lparr>timeLeft = 300, isActive = False, sessionType = Break, interval = None\<rparr>, [])
   \<and> rerender (onSessionComplete (\<lambda>d t. Fulfilled))
        \<lparr>timeLeft = 300, isActive = False, sessionType = Break, interval = None\<rparr>
      = Some (\<lparr>timeLeft = 300, isActive = False, sessionType = Break, interval = None\<rparr>, [])
   \<and> run (onSessionComplete (\<lambda>d t. Fulfilled)) initial []
     = Some (initial, zero_transitions (onSessionComplete (\<lambda>d t. Fulfilled)) initial [])
   \<and> \<not> (isActive initial \<and> timeLeft initial = 1)
   \<and> tick (onSessionComplete (\<lambda>d t. Fulfilled)) initial = Some (initial, [])"
proof -
  let ?cb = "onSessionComplete (\<lambda>d t. Fulfilled)"
  let ?w = "\<lparr>timeLeft = 1500, isActive = True, sessionType = Work, interval = Some 1500\<rparr>"
  let ?l = "\<lparr>timeLeft = 1, isActive = True, sessionType = Work, interval = Some 1\<rparr>"
  have w: "settled ?w" "isActive ?w" by (simp_all add: settled_def totalTime_def)
  have t: "toggleActive ?cb initial = Some (?w, [])"
    by (simp add: initial_def toggleActive_def commit_positive)
  have "run ?cb ?w (replicate 1499 Tick) = Some (?l, [])"
    using ticks_running [OF w, of 1499 ?cb] by simp
  with t have r: "run ?cb initial (StartPause # replicate 1499 Tick) = Some (?l, [])"
    by simp
  let ?b = "\<lparr>timeLeft = 300, isActive = False, sessionType = Break, interval = None\<rparr>"
  have z: "zero_transitions ?cb initial (StartPause # replicate 1499 Tick) = []"
    using completion_once_per_zero_transition [of "\<lambda>d t. Fulfilled" "StartPause # replicate 1499 Tick"] r
    by simp
  have l: "settled ?l" "isActive ?l" "timeLeft ?l = 1" by (simp_all add: settled_def totalTime_def)
  have b: "settled ?b" "\<not> isActive ?b" by (simp_all add: settled_def totalTime_def)
  have 1: "tick ?cb ?l = Some (?b, [(25, Work)])"
    using tick_last [OF l, of "\<lambda>d t. Fulfilled"] by (simp add: totalTime_def)
  have 2: "tick ?cb ?b = Some (?b, [])" using b by (rule tick_idle)
  have 3: "rerender ?cb ?b = Some (?b, [])" using b(1) by (rule rerender_settled)
  have 4: "tick ?cb initial = Some (initial, []) \<and> \<not> (isActive initial \<and> timeLeft initial = 1)"
    by (simp add: initial_def tick_def tickCallback_def)
  from r z 1 2 3 4 show ?thesis by simp
qed

text \<open>
  Claim C2. A work session started with 1500 seconds on the clock calls
  \<^verbatim>\<open>onSessionComplete(25, 'work')\<close> exactly once in the course of 1500 ticks, at the last of
  them (nothing has been called after 1499 ticks), and leaves the timer idle in break mode
  with 300 seconds; a break session of 300 ticks calls \<^verbatim>\<open>onSessionComplete(5, 'break')\<close>
  once and leaves the timer idle in work mode with 1500 seconds. The running start states
  are those the start button produces.
\<close>

theorem full_session_completes_once_and_advances:
  "run (onSessionComplete net)
       \<lparr>timeLeft = 1500, isActive = True, sessionType = Work, interval = Some 1500\<rparr>
       (replicate 1500 Tick)
     = Some (\<lparr>timeLeft = 300, isActive = False, sessionType = Break, interval = None\<rparr>, [(25, Work)])
   \<and> run (onSessionComplete net)
       \<lparr>timeLeft = 1500, isActive = True, sessionType = Work, interval = Some 1500\<rparr>
       (replicate 1499 Tick)
     = Some (\<lparr>timeLeft = 1, isActive = True, sessionType = Work, interval = Some 1\<rparr>, [])
   \<and> run (onSessionComplete net)
       \<lparr>timeLeft = 300, isActive = True, sessionType = Break, interval = Some 300\<rparr>
       (replicate 300 Tick)
     = Some (\<lparr>timeLeft = 1500, isActive = False, sessionType = Work, interval = None\<rparr>, [(5, Break)])
   \<and> run (onSessionComplete net)
       \<lparr>timeLeft = 300, isActive = True, sessionType = Break, interval = Some 300\<rparr>
       (replicate 299 Tick)
     = Some (\<lparr>timeLeft = 1, isActive = True, sessionType = Break, interval = Some 1\<rparr>, [])
   \<and> toggleActive (onSessionComplete net) initial
     = Some (\<lparr>timeLeft = 1500, isActive = True, sessionType = Work, interval = Some 1500\<rparr>, [])
   \<and> toggleActive (onSessionComplete net)
       \<lparr>timeLeft = 300, isActive = False, sessionType = Break, interval = None\<rparr>
     = Some (\<lparr>timeLeft = 300, isActive = True, sessionType = Break, interval = Some 300\<rparr>, [])"
proof -
  let ?w = "\<lparr>timeLeft = 1500, isActive = True, sessionType = Work, interval = Some 1500\<rparr>"
  let ?b = "\<lparr>timeLeft = 300, isActive = True, sessionType = Break, interval = Some 300\<rparr>"
  have w: "settled ?w" "isActive ?w" and b: "settled ?b" "isActive ?b"
    by (simp_all add: settled_def totalTime_def)
  have 1: "run (onSessionComplete net) ?w (replicate 1500 Tick)
     = Some (\<lparr>timeLeft = 300, isActive = False, sessionType = Break, interval = None\<rparr>, [(25, Work)])"
    using ticks_complete [OF w, of 1500 net] by (simp add: totalTime_def)
  have 2: "run (onSessionComplete net) ?w (replicate 1499 Tick)
     = Some (\<lparr>timeLeft = 1, isActive = True, sessionType = Work, interval = Some 1\<rparr>, [])"
    using ticks_running [OF w, of 1499 "onSessionComplete net"] by simp
  have 3: "run (onSessionComplete net) ?b (replicate 300 Tick)
     = Some (\<lparr>timeLeft = 1500, isActive = False, sessionType = Work, interval = None\<rparr>, [(5, Break)])"
    using ticks_complete [OF b, of 300 net] by (simp add: totalTime_def)
  have 4: "run (onSessionComplete net) ?b (replicate 299 Tick)
     = Some (\<lparr>timeLeft = 1, isActive = True, sessionType = Break, interval = Some 1\<rparr>, [])"
    using ticks_running [OF b, of 299 "onSessionComplete net"] by simp
  have 5: "toggleActive (onSessionComplete net) initial = Some (?w, [])"
    using toggleActive_settled [OF settled_initial] by (simp add: initial_def)
  have 6: "toggleActive (onSessionComplete net)
       \<lparr>timeLeft = 300, isActive = False, sessionType = Break, interval = None\<rparr> = Some (?b, [])"
    by (subst toggleActive_settled) (simp_all add: settled_def totalTime_def)
  from 1 2 3 4 5 6 show ?thesis by (intro conjI)
qed

text \<open>
  Claim C3. Every state the timer reaches from its initial state satisfies
  \<open>0 \<le> timeLeft \<le> totalTime\<close>, and so does the state a tick writes before the effect
  runs, which is one second lower. Over any number of ticks, the countdown is never
  negative, and as long as the timer is still running it has not increased.
\<close>

theorem remaining_seconds_bounded_and_decreasing:
  "\<exists>s calls. run (onSessionComplete net) initial as = Some (s, calls)
      \<and> 0 \<le> timeLeft s \<and> timeLeft s \<le> totalTime (sessionType s)
      \<and> (\<forall>t. tickCallback s = Some t \<longrightarrow>
             0 \<le> timeLeft t \<and> timeLeft t = timeLeft s - 1 \<and> timeLeft t \<le> totalTime (sessionType t))
      \<and> (\<forall>k. \<exists>s' calls'. run (onSessionComplete net) s (replicate k Tick) = Some (s', calls')
             \<and> 0 \<le> timeLeft s' \<and> timeLeft s' \<le> totalTime (sessionType s')
             \<and> (isActive s' \<longrightarrow> timeLeft s' \<le> timeLeft s))"
proof -
  from run_settled [OF settled_initial, of net as] obtain s where
    r: "run (onSessionComplete net) initial as =
          Some (s, zero_transitions (onSessionComplete net) initial as)"
    and s: "settled s" by blast
  from s have b: "0 \<le> timeLeft s \<and> timeLeft s \<le> totalTime (sessionType s)"
    by (simp add: settled_def)
  have c: "\<forall>t. tickCallback s = Some t \<longrightarrow>
             0 \<le> timeLeft t \<and> timeLeft t = timeLeft s - 1 \<and> timeLeft t \<le> totalTime (sessionType t)"
    using s by (auto simp: tickCallback_def settled_def split: option.splits if_splits)
  have d: "\<forall>k. \<exists>s' calls'. run (onSessionComplete net) s (replicate k Tick) = Some (s', calls')
             \<and> 0 \<le> timeLeft s' \<and> timeLeft s' \<le> totalTime (sessionType s')
             \<and> (isActive s' \<longrightarrow> timeLeft s' \<le> timeLeft s)"
  proof
    fix k
    from ticks_monotone [OF s, of net k] obtain s' calls' where
      "run (onSessionComplete net) s (replicate k Tick) = Some (s', calls')" "settled s'"
      "isActive s' \<longrightarrow> isActive s \<and> timeLeft s' \<le> timeLeft s" by blast
    then show "\<exists>s' calls'. run (onSessionComplete net) s (replicate k Tick) = Some (s', calls')
             \<and> 0 \<le> timeLeft s' \<and> timeLeft s' \<le> totalTime (sessionType s')
             \<and> (isActive s' \<longrightarrow> timeLeft s' \<le> timeLeft s)"
      by (auto simp: settled_def)
  qed
  from r b c d show ?thesis by blast
qed

theorem remaining_seconds_bounded_and_decreasing_witness:
  "run (onSessionComplete (\<lambda>d t. Fulfilled)) initial [StartPause, Tick]
     = Some (\<lparr>timeLeft = 1499, isActive = True, sessionType = Work, interval = Some 1499\<rparr>, [])
   \<and> tickCallback \<lparr>timeLeft = 1499, isActive = True, sessionType = Work, interval = Some 1499\<rparr>
     = Some \<lparr>timeLeft = 1498, isActive = True, sessionType = Work, interval = Some 1499\<rparr>
   \<and> run (onSessionComplete (\<lambda>d t. Fulfilled))
       \<lparr>timeLeft = 1499, isActive = True, sessionType = Work, interval = Some 1499\<rparr>
       (replicate 2 Tick)
     = Some (\<lparr>timeLeft = 1497, isActive = True, sessionType = Work, interval = Some 1497\<rparr>, [])
   \<and> isActive \<lparr>timeLeft = 1497, isActive = True, sessionType = Work, interval = Some 1497\<rparr>
   \<and> (1497::int) \<le> 1499 \<and> 1499 \<le> totalTime Work"
  using remaining_seconds_bounded_and_decreasing [of "\<lambda>d t. Fulfilled" "[StartPause, Tick]"]
  by (simp add: initial_def totalTime_def tick_def tickCallback_def toggleActive_def
      commit.simps useEffect_def numeral_2_eq_2)

text \<open>
  Claim C4. From every prior state, running or not, selecting a mode yields the idle state
  of that mode with the full duration on the clock and calls nothing: break gives
  300 of 300 seconds, and work selected during a running break with 100 seconds left
  gives 1500 seconds, not running.
\<close>

theorem selectMode_yields_idle_state_of_mode:
  "selectMode cb m s
     = Some (\<lparr>timeLeft = totalTime m, isActive = False, sessionType = m, interval = None\<rparr>, [])
   \<and> selectMode cb Break s
     = Some (\<lparr>timeLeft = 300, isActive = False, sessionType = Break, interval = None\<rparr>, [])
   \<and> totalTime Break = 300
   \<and> selectMode cb Work \<lparr>timeLeft = 100, isActive = True, sessionType = Break, interval = Some 100\<rparr>
     = Some (\<lparr>timeLeft = 1500, isActive = False, sessionType = Work, interval = None\<rparr>, [])
   \<and> totalTime Work = 1500"
  by (simp add: selectMode_any) (simp add: totalTime_def)

text \<open>
  Claim C5, as the specification states it, fails: the component has one start/pause
  button, and pressing it while the timer runs pauses the timer instead of leaving the
  state unchanged. The state below is the one the button produces from the initial state.
\<close>

theorem start_while_running_counterexample:
  "run (onSessionComplete (\<lambda>d t. Fulfilled)) initial [StartPause]
     = Some (\<lparr>timeLeft = 1500, isActive = True, sessionType = Work, interval = Some 1500\<rparr>, [])
   \<and> isActive \<lparr>timeLeft = 1500, isActive = True, sessionType = Work, interval = Some 1500\<rparr>
   \<and> toggleActive (onSessionComplete (\<lambda>d t. Fulfilled))
        \<lparr>timeLeft = 1500, isActive = True, sessionType = Work, interval = Some 1500\<rparr>
      = Some (\<lparr>timeLeft = 1500, isActive = False, sessionType = Work, interval = None\<rparr>, [])
   \<and> \<lparr>timeLeft = 1500, isActive = False, sessionType = Work, interval = None\<rparr>
      \<noteq> \<lparr>timeLeft = 1500, isActive = True, sessionType = Work, interval = Some 1500\<rparr>"
  by (simp add: initial_def toggleActive_def commit_positive)

text \<open>
  Claim C5, amended. The start/pause button toggles the timer. In every state the timer
  reaches, an idle timer is started in the same mode from the seconds that are left, and a
  running timer is paused. No state the timer reaches has zero seconds left, so a start
  at zero does not arise.
\<close>

theorem start_pause_button_toggles:
  assumes "run (onSessionComplete net) initial as = Some (s, calls)"
  shows "timeLeft s \<noteq> 0
     \<and> (\<not> isActive s \<longrightarrow>
          toggleActive (onSessionComplete net) s
            = Some (s\<lparr>isActive := True, interval := Some (timeLeft s)\<rparr>, []))
     \<and> (isActive s \<longrightarrow>
          toggleActive (onSessionComplete net) s
            = Some (s\<lparr>isActive := False, interval := None\<rparr>, []))"
proof -
  from assms have s: "settled s" by (rule reachable_settled)
  then have "timeLeft s \<noteq> 0" by (simp add: settled_def)
  with toggleActive_settled [OF s, of "onSessionComplete net"] show ?thesis by simp
qed

theorem start_pause_button_toggles_witness:
  "run (onSessionComplete (\<lambda>d t. Fulfilled)) initial [] = Some (initial, [])
   \<and> \<not> isActive initial
   \<and> toggleActive (onSessionComplete (\<lambda>d t. Fulfilled)) initial
      = Some (\<lparr>timeLeft = 1500, isActive = True, sessionType = Work, interval = Some 1500\<rparr>, [])
   \<and> run (onSessionComplete (\<lambda>d t. Fulfilled)) initial [StartPause]
      = Some (\<lparr>timeLeft = 1500, isActive = True, sessionType = Work, interval = Some 1500\<rparr>, [])
   \<and> isActive \<lparr>timeLeft = 1500, isActive = True, sessionType = Work, interval = Some 1500\<rparr>
   \<and> toggleActive (onSessionComplete (\<lambda>d t. Fulfilled))
        \<lparr>timeLeft = 1500, isActive = True, sessionType = Work, interval = Some 1500\<rparr>
      = Some (\<lparr>timeLeft = 1500, isActive = False, sessionType = Work, interval = None\<rparr>, [])"
proof -
  let ?cb = "onSessionComplete (\<lambda>d t. Fulfilled)"
  let ?w = "\<lparr>timeLeft = 1500, isActive = True, sessionType = Work, interval = Some 1500\<rparr>"
  have 0: "run ?cb initial [] = Some (initial, [])" by simp
  have i: "\<not> isActive initial" by (simp add: initial_def)
  have 1: "toggleActive ?cb initial = Some (?w, [])"
    using start_pause_button_toggles [OF 0] i by (simp add: initial_def)
  then have r: "run ?cb initial [StartPause] = Some (?w, [])" by simp
  have 2: "toggleActive ?cb ?w
      = Some (\<lparr>timeLeft = 1500, isActive = False, sessionType = Work, interval = None\<rparr>, [])"
    using start_pause_button_toggles [OF r] by simp
  from 0 i 1 r 2 show ?thesis by simp
qed

text \<open>
  Claim C6. In every running state the timer reaches, pausing (the start/pause button)
  leaves the timer idle in the same mode with the same seconds left and the same
  duration, and clears the interval, so that no tick is delivered afterwards and the
  countdown stays where it was. In the scenario of the specification: start, one tick
  (1499 seconds left), pause, another tick: still 1499 seconds left.
\<close>

theorem pause_preserves_remaining_seconds:
  assumes "run (onSessionComplete net) initial as = Some (s, calls)" and "isActive s"
  shows "(\<exists>s'. toggleActive (onSessionComplete net) s = Some (s', [])
            \<and> \<not> isActive s' \<and> timeLeft s' = timeLeft s \<and> sessionType s' = sessionType s
            \<and> totalTime (sessionType s') = totalTime (sessionType s)
            \<and> tickCallback s' = None \<and> tick (onSessionComplete net) s' = Some (s', []))
     \<and> run (onSessionComplete net) initial [StartPause, Tick]
          = Some (\<lparr>timeLeft = 1499, isActive = True, sessionType = Work, interval = Some 1499\<rparr>, [])
     \<and> run (onSessionComplete net) initial [StartPause, Tick, StartPause, Tick]
          = Some (\<lparr>timeLeft = 1499, isActive = False, sessionType = Work, interval = None\<rparr>, [])"
proof (intro conjI)
  let ?cb = "onSessionComplete net"
  let ?s' = "s\<lparr>isActive := False, interval := None\<rparr>"
  from assms(1) have s: "settled s" by (rule reachable_settled)
  have "toggleActive ?cb s = Some (?s', [])"
    using s assms(2) by (simp add: toggleActive_settled)
  moreover have "tickCallback ?s' = None" by (simp add: tickCallback_def)
  moreover have "tick ?cb ?s' = Some (?s', [])" by (simp add: tick_def tickCallback_def)
  ultimately show "\<exists>s'. toggleActive ?cb s = Some (s', [])
            \<and> \<not> isActive s' \<and> timeLeft s' = timeLeft s \<and> sessionType s' = sessionType s
            \<and> totalTime (sessionType s') = totalTime (sessionType s)
            \<and> tickCallback s' = None \<and> tick ?cb s' = Some (s', [])"
    by simp
next
  show "run (onSessionComplete net) initial [StartPause, Tick]
          = Some (\<lparr>timeLeft = 1499, isActive = True, sessionType = Work, interval = Some 1499\<rparr>, [])"
    by (simp add: initial_def toggleActive_def tick_def tickCallback_def commit_positive)
next
  show "run (onSessionComplete net) initial [StartPause, Tick, StartPause, Tick]
          = Some (\<lparr>timeLeft = 1499, isActive = False, sessionType = Work, interval = None\<rparr>, [])"
    by (simp add: initial_def toggleActive_def tick_def tickCallback_def commit_positive)
qed

theorem pause_preserves_remaining_seconds_witness:
  "run (onSessionComplete (\<lambda>d t. Fulfilled)) initial [SelectMode Break, StartPause, Tick, Tick]
     = Some (\<lparr>timeLeft = 298, isActive = True, sessionType = Break, interval = Some 298\<rparr>, [])
   \<and> isActive \<lparr>timeLeft = 298, isActive = True, sessionType = Break, interval = Some 298\<rparr>
   \<and> toggleActive (onSessionComplete (\<lambda>d t. Fulfilled))
        \<lparr>timeLeft = 298, isActive = True, sessionType = Break, interval = Some 298\<rparr>
      = Some (\<lparr>timeLeft = 298, isActive = False, sessionType = Break, interval = None\<rparr>, [])
   \<and> tick (onSessionComplete (\<lambda>d t. Fulfilled))
        \<lparr>timeLeft = 298, isActive = False, sessionType = Break, interval = None\<rparr>
      = Some (\<lparr>timeLeft = 298, isActive = False, sessionType = Break, interval = None\<rparr>, [])"
proof -
  let ?cb = "onSessionComplete (\<lambda>d t. Fulfilled)"
  let ?r = "\<lparr>timeLeft = 298, isActive = True, sessionType = Break, interval = Some 298\<rparr>"
  have r: "run ?cb initial [SelectMode Break, StartPause, Tick, Tick] = Some (?r, [])"
    by (simp add: initial_def selectMode_def toggleActive_def tick_def tickCallback_def commit_positive)
  have a: "isActive ?r" by simp
  from pause_preserves_remaining_seconds [OF r a] r show ?thesis
    by (auto simp: toggleActive_def tick_def tickCallback_def commit_positive)
qed

text \<open>
  Claim C7. A rejected request is caught inside the recorder: the call returns to the
  timer, the promise it returns is fulfilled, and the error is logged. Every step and
  every run of the timer therefore has the same result whatever the fate of the requests,
  and no step is cut short; in particular the tick that ends a session advances to the
  next mode with a failing recorder as with a working one.
\<close>

theorem persistence_failure_leaves_timer_alone:
  "sync (handleFocusSessionComplete Rejected d t) = Returned
   \<and> promise (handleFocusSessionComplete Rejected d t) = Fulfilled
   \<and> console (handleFocusSessionComplete Rejected d t) = [''Focus session save error:'']
   \<and> posted (handleFocusSessionComplete Rejected d t) = [(d, t)]
   \<and> step (onSessionComplete net) a s = step (onSessionComplete net') a s
   \<and> run (onSessionComplete net) s as = run (onSessionComplete net') s as
   \<and> step (onSessionComplete net) a s \<noteq> None
   \<and> tick (onSessionComplete (\<lambda>d t. Rejected))
        \<lparr>timeLeft = 1, isActive = True, sessionType = Work, interval = Some 1\<rparr>
      = Some (\<lparr>timeLeft = 300, isActive = False, sessionType = Break, interval = None\<rparr>, [(25, Work)])
   \<and> tick (onSessionComplete (\<lambda>d t. Rejected))
        \<lparr>timeLeft = 1, isActive = True, sessionType = Break, interval = Some 1\<rparr>
      = Some (\<lparr>timeLeft = 1500, isActive = False, sessionType = Work, interval = None\<rparr>, [(5, Break)])"
proof -
  have e: "onSessionComplete net = onSessionComplete net'"
    by (intro ext) (simp add: handler_never_throws)
  have h: "sync (handleFocusSessionComplete Rejected d t) = Returned
   \<and> promise (handleFocusSessionComplete Rejected d t) = Fulfilled
   \<and> console (handleFocusSessionComplete Rejected d t) = [''Focus session save error:'']
   \<and> posted (handleFocusSessionComplete Rejected d t) = [(d, t)]"
    by (simp add: handleFocusSessionComplete_def async_call_def try_catch_def await_fetch_def)
  have w: "tick (onSessionComplete (\<lambda>d t. Rejected))
        \<lparr>timeLeft = 1, isActive = True, sessionType = Work, interval = Some 1\<rparr>
      = Some (\<lparr>timeLeft = 300, isActive = False, sessionType = Break, interval = None\<rparr>, [(25, Work)])"
    by (subst tick_last) (simp_all add: settled_def totalTime_def)
  have b: "tick (onSessionComplete (\<lambda>d t. Rejected))
        \<lparr>timeLeft = 1, isActive = True, sessionType = Break, interval = Some 1\<rparr>
      = Some (\<lparr>timeLeft = 1500, isActive = False, sessionType = Work, interval = None\<rparr>, [(5, Break)])"
    by (subst tick_last) (simp_all add: settled_def totalTime_def)
  from h w b step_total [of net' a s] show ?thesis by (simp add: e)
qed

text \<open>
  The mode of a selection. The state is typed \<^verbatim>\<open>'work' | 'break'\<close> and the only two callers
  are the mode buttons, which pass these two literals: the type has no further value, and
  a selection has no failing outcome, whatever the prior state and whatever the callback
  does. A statement about a mode outside the two has no instance here.
\<close>

lemma session_type_two_modes: "(UNIV :: session_type set) = {Work, Break}"
  using session_type.exhaust by auto

lemma selectMode_never_fails: "selectMode cb m s \<noteq> None"
  by (simp add: selectMode_any)

section \<open>The claims about the CRUD back end\<close>

subsection \<open>What the two patch handlers write\<close>

lemma patch_task_merge:
  "patch_task body i rows =
     (map (\<lambda>r. if task_id r = i
               then r\<lparr>status := (if truthy (patch_status body) then bound (patch_status body) else status r),
                      priority := (if truthy (patch_priority body) then bound (patch_priority body) else priority r)\<rparr>
               else r) rows,
      Success)"
  by (cases "truthy (patch_status body)"; cases "truthy (patch_priority body)")
     (simp_all add: patch_task_def update_status_def update_priority_def Let_def cong: if_cong)

lemma patch_task_frame:
  assumes "patch_task body i rows = (rows', resp)" and "n < length rows"
  shows "resp = Success \<and> length rows' = length rows
     \<and> task_id (rows' ! n) = task_id (rows ! n) \<and> title (rows' ! n) = title (rows ! n)
     \<and> description (rows' ! n) = description (rows ! n) \<and> due_date (rows' ! n) = due_date (rows ! n)
     \<and> created_at (rows' ! n) = created_at (rows ! n)
     \<and> (task_id (rows ! n) \<noteq> i \<longrightarrow> rows' ! n = rows ! n)
     \<and> (patch_status body = Absent \<longrightarrow> status (rows' ! n) = status (rows ! n))
     \<and> (patch_priority body = Absent \<longrightarrow> priority (rows' ! n) = priority (rows ! n))"
  using assms by (auto simp: patch_task_merge truthy_def)

lemma patch_lecture_supplied:
  "patch_attendance_status body \<noteq> Absent \<Longrightarrow>
   patch_lecture driver body i rows =
     (map (\<lambda>r. if lecture_id r = i then r\<lparr>attendance_status := bound (patch_attendance_status body)\<rparr> else r) rows,
      Success)"
  by (simp add: patch_lecture_def update_attendance_status_def)

text \<open>
  Claim C9 holds for the task handler (\<open>patch_task_merge\<close>, \<open>patch_task_frame\<close>) and for
  a lecture request that carries the field (\<open>patch_lecture_supplied\<close>). It fails for a
  lecture request without \<^verbatim>\<open>attendance_status\<close>: the handler has no guard of the kind the
  task handler has, and runs the update with an \<^verbatim>\<open>undefined\<close> parameter. With a driver
  that binds NULL the recorded attendance is erased although the request did not supply
  the field; with a driver that rejects the parameter the request ends in an error
  response instead of the success flag.
\<close>

theorem patch_lecture_without_field_overwrites:
  "patch_lecture Binds_Null \<lparr>patch_attendance_status = Absent\<rparr> 1
       [\<lparr>lecture_id = 1, subject = ''Maths'', topic = None, attendance_status = Some ''present'',
          date = None, completed = 0\<rparr>]
     = ([\<lparr>lecture_id = 1, subject = ''Maths'', topic = None, attendance_status = None,
           date = None, completed = 0\<rparr>], Success)
   \<and> patch_lecture Throws_TypeError \<lparr>patch_attendance_status = Absent\<rparr> 1
       [\<lparr>lecture_id = 1, subject = ''Maths'', topic = None, attendance_status = Some ''present'',
          date = None, completed = 0\<rparr>]
     = ([\<lparr>lecture_id = 1, subject = ''Maths'', topic = None, attendance_status = Some ''present'',
           date = None, completed = 0\<rparr>], Internal_Server_Error)
   \<and> patch_task \<lparr>patch_status = Absent, patch_priority = Text ''high''\<rparr> 1
       [\<lparr>task_id = 1, title = ''Essay'', description = None, priority = Some ''medium'',
          status = Some ''todo'', due_date = None, created_at = ''2024-01-01 10:00:00''\<rparr>]
     = ([\<lparr>task_id = 1, title = ''Essay'', description = None, priority = Some ''high'',
           status = Some ''todo'', due_date = None, created_at = ''2024-01-01 10:00:00''\<rparr>], Success)"
  by (simp add: patch_lecture_def update_attendance_status_def bound_def
      patch_task_def update_status_def update_priority_def truthy_def)

text \<open>
  Claim C10. Listing the tasks returns every row of the table, each as often as it is
  stored, in descending order of \<^verbatim>\<open>created_at\<close>.
\<close>

theorem get_tasks_all_rows_newest_first:
  "mset (get_tasks rows) = mset rows
   \<and> sorted_wrt (\<lambda>a b. created_at b \<le> created_at a) (get_tasks rows)"
proof -
  let ?asc = "sort_key created_at (rev rows)"
  have "sorted (map created_at ?asc)"
    by (rule sorted_sort_key)
  then have "sorted_wrt (\<lambda>a b. created_at a \<le> created_at b) ?asc"
    by (simp add: sorted_map)
  then have "sorted_wrt (\<lambda>a b. created_at b \<le> created_at a) (rev ?asc)"
    by (simp add: sorted_wrt_rev)
  moreover have "mset (rev ?asc) = mset rows"
    by simp
  ultimately show ?thesis by (simp add: get_tasks_def)
qed

text \<open>
  Rows created in the same second come out in the order of the table: below, rows 1 and 2
  share a timestamp and row 3 is newer.
\<close>

lemma get_tasks_example:
  "map task_id (get_tasks
     [\<lparr>task_id = 1, title = ''a'', description = None, priority = Some ''medium'',
        status = Some ''todo'', due_date = None, created_at = ''2024-01-01 10:00:00''\<rparr>,
      \<lparr>task_id = 2, title = ''b'', description = None, priority = Some ''medium'',
        status = Some ''todo'', due_date = None, created_at = ''2024-01-01 10:00:00''\<rparr>,
      \<lparr>task_id = 3, title = ''c'', description = None, priority = Some ''medium'',
        status = Some ''todo'', due_date = None, created_at = ''2024-01-02 09:00:00''\<rparr>,
      \<lparr>task_id = 4, title = ''d'', description = None, priority = Some ''medium'',
        status = Some ''todo'', due_date = None, created_at = ''2023-12-31 23:59:59''\<rparr>]) = [3, 1, 2, 4]"
  by (simp add: get_tasks_def)

lemma get_tasks_equal_keys_keep_table_order:
  "\<forall>r \<in> set rows. created_at r = k \<Longrightarrow> get_tasks rows = rows"
proof -
  have "\<forall>r \<in> set xs. created_at r = k \<Longrightarrow> sort_key created_at xs = xs" for xs :: "task list"
  proof (induction xs)
    case Nil
    then show ?case by simp
  next
    case (Cons x xs)
    then have "sort_key created_at xs = xs" by simp
    moreover from Cons.prems have "insort_key created_at x xs = x # xs"
      by (cases xs) simp_all
    ultimately show ?case by simp
  qed
  from this [of "rev rows"] show "\<forall>r \<in> set rows. created_at r = k \<Longrightarrow> get_tasks rows = rows"
    by (simp add: get_tasks_def)
qed

end
